theory Spec2Isabelle
  imports Main
begin

section \<open>The asset registry of sitekit/web/assets.go\<close>

text \<open>
  A shallow embedding of the Go package \<open>web\<close> (file \<open>sitekit/web/assets.go\<close>).
  The registry is run by one goroutine: the reader/writer lock is not modelled and every
  method is one atomic step on the state.

  Go values:
  \<^item> a \<open>string\<close> is a \<open>string\<close> (a list of bytes);
  \<open>[]byte\<close> is a \<open>string option\<close>, \<open>None\<close> being the \<open>nil\<close> slice, because
  \<open>Get\<close> tests \<open>file.Content == nil\<close>;
  \<^item> a \<open>*File\<close> is an address (a natural number) into an explicit store of
  \<open>File\<close> records, because \<open>entries\<close> and \<open>byChecksum\<close> share the records they point to;
  \<^item> a returned \<open>error\<close> is \<open>Error msg\<close>, a run-time panic is \<open>Panic msg\<close>;
  \<^item> \<open>version\<close> is a Go \<open>int\<close>, read here as an unbounded integer (the counter wraps only
  after \<open>2^63\<close> registrations on a 64-bit platform).
\<close>

subsection \<open>Library functions used by the package\<close>

type_synonym slice = "string option"

definition bytes_of :: "slice \<Rightarrow> string" where
  "bytes_of b = (case b of None \<Rightarrow> [] | Some c \<Rightarrow> c)"

datatype failure = Error string | Panic string

text \<open>\<open>strings.HasPrefix\<close> and \<open>strings.Contains\<close>.\<close>

fun HasPrefix :: "string \<Rightarrow> string \<Rightarrow> bool" where
  "HasPrefix s [] = True"
| "HasPrefix [] (p # ps) = False"
| "HasPrefix (c # cs) (p # ps) = (c = p \<and> HasPrefix cs ps)"

fun Contains :: "string \<Rightarrow> string \<Rightarrow> bool" where
  "Contains [] sub = (sub = [])"
| "Contains (c # cs) sub = (HasPrefix (c # cs) sub \<or> Contains cs sub)"

text \<open>\<open>strings.Join\<close>.\<close>

fun Join :: "string list \<Rightarrow> string \<Rightarrow> string" where
  "Join [] sep = []"
| "Join [x] sep = x"
| "Join (x # y # ys) sep = x @ sep @ Join (y # ys) sep"

text \<open>\<open>hex.EncodeToString\<close>: two lower-case digits for every byte.\<close>

definition hexdigit :: "nat \<Rightarrow> char" where
  "hexdigit n = ''0123456789abcdef'' ! (n mod 16)"

definition EncodeToString :: "string \<Rightarrow> string" where
  "EncodeToString bs =
     concat (map (\<lambda>c. [hexdigit (of_char c div 16), hexdigit (of_char c mod 16)]) bs)"

text \<open>
  \<open>strings.TrimSpace\<close> removes leading and trailing Unicode white space. On the UTF-8
  bytes of a Go string these are the encodings listed in \<open>white_space\<close>: the ASCII
  characters tab, line feed, vertical tab, form feed, carriage return and space, and
  U+0085, U+00A0, U+1680, U+2000 to U+200A, U+2028, U+2029, U+202F, U+205F, U+3000.
\<close>

definition bs :: "nat list \<Rightarrow> string" where
  "bs ns = map char_of ns"

definition white_space :: "string list" where
  "white_space =
     map bs [[9], [10], [11], [12], [13], [32], [194, 133], [194, 160], [225, 154, 128]]
     @ map (\<lambda>n. bs [226, 128, n]) [128 ..< 139]
     @ map bs [[226, 128, 168], [226, 128, 169], [226, 128, 175], [226, 129, 159],
               [227, 128, 128]]"

fun white_prefix :: "string list \<Rightarrow> string \<Rightarrow> nat option" where
  "white_prefix [] s = None"
| "white_prefix (w # ws) s = (if HasPrefix s w then Some (length w) else white_prefix ws s)"

function trim_left :: "string list \<Rightarrow> string \<Rightarrow> string" where
  "trim_left ws s =
     (case white_prefix ws s of
        None \<Rightarrow> s
      | Some n \<Rightarrow> if n = 0 \<or> s = [] then s else trim_left ws (drop n s))"
  by pat_completeness auto
termination
  by (relation "measure (\<lambda>(ws, s). length s)") auto

text \<open>
  The white space at the end is removed on the reversed string, with the encodings
  reversed.
\<close>

definition TrimSpace :: "string \<Rightarrow> string" where
  "TrimSpace s = rev (trim_left (map rev white_space) (rev (trim_left white_space s)))"

text \<open>
  \<open>filepath.Ext\<close>, \<open>filepath.Clean\<close>, \<open>filepath.Dir\<close> and \<open>filepath.Join\<close> on a
  system whose separator is \<open>/\<close> and that has no volume names. \<open>Ext\<close> scans from the end
  of the path to the last separator and returns the suffix that starts at the first dot it
  meets. \<open>Clean\<close> drops empty and \<open>.\<close> elements, lets \<open>..\<close> remove the element before
  it, drops a \<open>..\<close> at the root, and returns \<open>.\<close> for an empty result.
\<close>

fun ext_scan :: "string \<Rightarrow> string \<Rightarrow> string" where
  "ext_scan [] acc = []"
| "ext_scan (c # cs) acc =
     (if c = CHR ''/'' then []
      else if c = CHR ''.'' then c # acc
      else ext_scan cs (c # acc))"

definition filepath_Ext :: "string \<Rightarrow> string" where
  "filepath_Ext p = ext_scan (rev p) []"

fun split_slash :: "string \<Rightarrow> string list" where
  "split_slash [] = [[]]"
| "split_slash (c # cs) =
     (if c = CHR ''/'' then [] # split_slash cs
      else (case split_slash cs of [] \<Rightarrow> [[c]] | x # xs \<Rightarrow> (c # x) # xs))"

fun clean_elems :: "bool \<Rightarrow> string list \<Rightarrow> string list \<Rightarrow> string list" where
  "clean_elems rooted st [] = rev st"
| "clean_elems rooted st (e # es) =
     (if e = [] \<or> e = ''.'' then clean_elems rooted st es
      else if e = ''..'' then
        (case st of
           [] \<Rightarrow> if rooted then clean_elems rooted [] es else clean_elems rooted [e] es
         | t # ts \<Rightarrow> if t = ''..'' then clean_elems rooted (e # st) es
                     else clean_elems rooted ts es)
      else clean_elems rooted (e # st) es)"

definition filepath_Clean :: "string \<Rightarrow> string" where
  "filepath_Clean p =
     (let rooted = HasPrefix p ''/'';
          out = (if rooted then ''/'' else []) @ Join (clean_elems rooted [] (split_slash p)) ''/''
      in if out = [] then ''.'' else out)"

definition filepath_Dir :: "string \<Rightarrow> string" where
  "filepath_Dir p = filepath_Clean (rev (dropWhile (\<lambda>c. c \<noteq> CHR ''/'') (rev p)))"

fun filepath_Join :: "string list \<Rightarrow> string" where
  "filepath_Join [] = []"
| "filepath_Join (e # es) =
     (if e \<noteq> [] then filepath_Clean (Join (e # es) ''/'') else filepath_Join es)"

text \<open>
  The two regular expressions of the package, \<open>url\([^\)]+\)\<close> and
  \<open>sourceMappingURL=\S+\<close>, as matchers that return the length of the match that starts
  at the head of the input. Both patterns are a literal followed by one greedy run and
  have one match at most at a position. \<open>\S\<close> is every byte but tab, line feed, form
  feed, carriage return and space.
\<close>

definition cssUrlRegex :: "string \<Rightarrow> nat option" where
  "cssUrlRegex s =
     (if HasPrefix s ''url(''
      then let t = drop 4 s; body = takeWhile (\<lambda>c. c \<noteq> CHR '')'') t
           in if body \<noteq> [] \<and> length body < length t then Some (4 + length body + 1) else None
      else None)"

definition regex_space :: "char \<Rightarrow> bool" where
  "regex_space c = (c \<in> set (bs [9, 10, 12, 13, 32]))"

definition sourceMapRegex :: "string \<Rightarrow> nat option" where
  "sourceMapRegex s =
     (if HasPrefix s ''sourceMappingURL=''
      then let body = takeWhile (\<lambda>c. \<not> regex_space c) (drop 17 s)
           in if body \<noteq> [] then Some (17 + length body) else None
      else None)"

text \<open>
  The scan of \<open>Regexp.ReplaceAllFunc\<close>: the input cut into the bytes outside every match
  and the leftmost non-overlapping matches, in order. The matches depend on the input
  only, so the scan is separated from the calls of the replacement function.
\<close>

datatype segment = Lit char | Match string

function find_all :: "(string \<Rightarrow> nat option) \<Rightarrow> string \<Rightarrow> segment list" where
  "find_all re [] = []"
| "find_all re (c # cs) =
     (case re (c # cs) of
        None \<Rightarrow> Lit c # find_all re cs
      | Some n \<Rightarrow> Match (take n (c # cs)) # find_all re (drop (n - 1) cs))"
  by pat_completeness auto
termination
  by (relation "measure (\<lambda>(re, s). length s)") auto

subsection \<open>Data\<close>

text \<open>
  The preprocessors a registry can hold: the two reference rewriters of the package and
  transforms of the caller, \<open>UserPreprocessor i\<close>, which are functions of the path and the
  content that do not call back into the registry.
\<close>

datatype Preprocessor = AssetCssPreprocessor | AssetSourceMapPreprocessor | UserPreprocessor nat

text \<open>
  The templating engine is outside the package. A parse tree is an opaque value; a
  \<open>*template.Template\<close> is the name space it shares with its associated templates, from a
  template name to its tree (\<open>None\<close> while the template has no tree, as the shell that
  \<open>template.New\<close> returns).
\<close>

datatype tree = Tree string

type_synonym template = "string \<rightharpoonup> tree option"

datatype tfunc = Jscode | AssetFunc | AssetinlineFunc | UserFunc nat

record File =
  path :: string
  Content :: slice
  ContentGZipped :: slice
  Hash :: slice
  HashString :: string
  ContentType :: string

record Assets =
  version :: int
  baseURL :: string
  preprocessors :: "string \<rightharpoonup> Preprocessor list"
  store :: "nat \<Rightarrow> File"
  next_addr :: nat
  entries :: "string \<rightharpoonup> nat"
  byChecksum :: "string \<rightharpoonup> nat"
  templateCache :: "string \<rightharpoonup> template"
  templateCacheVersion :: int
  templateFuncMap :: "string \<rightharpoonup> tfunc"

text \<open>
  What the package takes from outside: the file system, MIME detection, gzip, SHA-1, the
  caller's preprocessors, the template parser (the named templates \<open>Templates()\<close> lists
  after \<open>Parse\<close>, or the parse error), template execution (the output written and the
  error, if any), and the clock reading that \<open>Serve\<close> formats into the \<open>Expires\<close> header.
\<close>

record env =
  ReadFile :: "string \<Rightarrow> string + string"
  TypeByExtension :: "string \<Rightarrow> string"
  DetectContentType :: "string \<Rightarrow> string"
  gzip :: "string \<Rightarrow> string"
  sha1 :: "string \<Rightarrow> string"
  user_preprocessor :: "nat \<Rightarrow> string \<Rightarrow> slice \<Rightarrow> string + slice"
  Parse :: "(string \<rightharpoonup> tfunc) \<Rightarrow> string \<Rightarrow> string \<Rightarrow> string + (string \<times> tree) list"
  ExecuteTemplate :: "template \<Rightarrow> string \<Rightarrow> string \<Rightarrow> string \<times> string option"
  expires :: string

text \<open>
  A call returns \<open>None\<close> when the recursion through the reference rewriter is deeper than
  the fuel allows (the Go code then recurses without end), and otherwise its result, a
  failure or a value, together with the registry it leaves.
\<close>

type_synonym 'a res = "((failure + 'a) \<times> Assets) option"

text \<open>An \<open>http.ResponseWriter\<close> and the part of an \<open>*http.Request\<close> that \<open>Serve\<close> reads.\<close>

record response =
  header :: "string \<rightharpoonup> string"
  status :: "nat option"
  body :: string

record request =
  Header :: "string \<Rightarrow> string list"

definition Header_Set :: "response \<Rightarrow> string \<Rightarrow> string \<Rightarrow> response" where
  "Header_Set w k v = w\<lparr>header := (header w)(k \<mapsto> v)\<rparr>"

definition WriteHeader :: "response \<Rightarrow> nat \<Rightarrow> response" where
  "WriteHeader w code = (if status w = None then w\<lparr>status := Some code\<rparr> else w)"

definition Write :: "response \<Rightarrow> string \<Rightarrow> response" where
  "Write w b = (let w' = WriteHeader w 200 in w'\<lparr>body := body w' @ b\<rparr>)"

definition Header_Get :: "request \<Rightarrow> string \<Rightarrow> string" where
  "Header_Get r k = (case Header r k of [] \<Rightarrow> [] | v # _ \<Rightarrow> v)"

subsection \<open>Registration\<close>

definition AddPreprocessor :: "Assets \<Rightarrow> string \<Rightarrow> Preprocessor \<Rightarrow> Assets" where
  "AddPreprocessor f extension processor =
     (let preprocessors' = (case preprocessors f extension of None \<Rightarrow> [] | Some ps \<Rightarrow> ps)
      in f\<lparr>preprocessors := (preprocessors f)(extension \<mapsto> preprocessors' @ [processor])\<rparr>)"

definition ClearPreprocessors :: "Assets \<Rightarrow> string \<Rightarrow> Assets" where
  "ClearPreprocessors f extension = f\<lparr>preprocessors := (preprocessors f)(extension := None)\<rparr>"

definition SetTemplateFunc :: "Assets \<Rightarrow> string \<Rightarrow> tfunc \<Rightarrow> Assets" where
  "SetTemplateFunc f name templateFunc =
     f\<lparr>templateFuncMap := (templateFuncMap f)(name \<mapsto> templateFunc)\<rparr>"

definition new_File :: "string \<Rightarrow> File" where
  "new_File file =
     \<lparr>path = file, Content = None, ContentGZipped = None, Hash = None, HashString = [],
      ContentType = []\<rparr>"

definition NewAssets :: "string \<Rightarrow> Assets" where
  "NewAssets baseURL' =
     (let assets =
        \<lparr>version = 0, baseURL = baseURL', preprocessors = Map.empty,
         store = (\<lambda>a. new_File []), next_addr = 0, entries = Map.empty,
         byChecksum = Map.empty, templateCache = Map.empty, templateCacheVersion = 0,
         templateFuncMap =
           [''jscode'' \<mapsto> Jscode, ''asset'' \<mapsto> AssetFunc, ''assetinline'' \<mapsto> AssetinlineFunc]\<rparr>
      in AddPreprocessor (AddPreprocessor assets ''.css'' AssetCssPreprocessor)
           ''.css'' AssetSourceMapPreprocessor)"

text \<open>\<open>AddFile\<close> allocates a fresh \<open>File\<close>, points the virtual path at it and counts.\<close>

definition AddFile :: "Assets \<Rightarrow> string \<Rightarrow> string \<Rightarrow> Assets" where
  "AddFile f file virtualPath =
     f\<lparr>store := (store f)(next_addr f := new_File file),
       next_addr := Suc (next_addr f),
       entries := (entries f)(virtualPath \<mapsto> next_addr f),
       version := version f + 1\<rparr>"

text \<open>
  \<open>AddDirectory\<close> on the files that \<open>filepath.Walk\<close> visits, given as their path and their
  path relative to the directory; the errors of the walk are outside the model.
\<close>

fun AddDirectory :: "Assets \<Rightarrow> (string \<times> string) list \<Rightarrow> string \<Rightarrow> Assets" where
  "AddDirectory f [] virtualPath = f"
| "AddDirectory f ((path', rel) # walk) virtualPath =
     AddDirectory (AddFile f path' (virtualPath @ rel)) walk virtualPath"

subsection \<open>The reference rewriter\<close>

definition getRooted :: "string \<Rightarrow> string \<Rightarrow> failure + string" where
  "getRooted fromFile targetFile =
     (case targetFile of
        [] \<Rightarrow> Inl (Panic ''index out of range'')
      | c # _ \<Rightarrow>
          if c = CHR ''/'' then Inr targetFile
          else Inr (filepath_Join [filepath_Dir fromFile, targetFile]))"

text \<open>
  The function that \<open>replaceProcessor\<close> passes to \<open>ReplaceAllFunc\<close>, applied to one match:
  the replacement and the error it stores in \<open>replaceErr\<close>, if any. A panic ends the run.
  \<open>geturl\<close> is \<open>assets.GetUrl\<close>.
\<close>

definition replace_match ::
  "(Assets \<Rightarrow> string \<Rightarrow> string res) \<Rightarrow> string \<Rightarrow> string \<Rightarrow> string \<Rightarrow> Assets \<Rightarrow> string
     \<Rightarrow> (string \<times> failure option) res" where
  "replace_match geturl path' prefix postfix assets match =
     (let file = drop (length prefix) (take (length match - length postfix) match)
      in case getRooted path' (TrimSpace file) of
           Inl (Panic p) \<Rightarrow> Some (Inl (Panic p), assets)
         | Inl (Error e) \<Rightarrow> Some (Inr (match, Some (Error e)), assets)
         | Inr rootedPath \<Rightarrow>
             (case geturl assets rootedPath of
                None \<Rightarrow> None
              | Some (Inl (Panic p), assets') \<Rightarrow> Some (Inl (Panic p), assets')
              | Some (Inl (Error e), assets') \<Rightarrow> Some (Inr (match, Some (Error e)), assets')
              | Some (Inr url, assets') \<Rightarrow> Some (Inr (prefix @ url @ postfix, None), assets')))"

text \<open>
  \<open>ReplaceAllFunc\<close> over the scanned input: every match is replaced in order, also after
  an earlier one has failed, and \<open>replaceErr\<close> keeps the last error.
\<close>

fun replace_all ::
  "(Assets \<Rightarrow> string \<Rightarrow> string res) \<Rightarrow> string \<Rightarrow> string \<Rightarrow> string \<Rightarrow> segment list
     \<Rightarrow> Assets \<Rightarrow> string \<Rightarrow> failure option \<Rightarrow> (string \<times> failure option) res" where
  "replace_all geturl path' prefix postfix [] assets buf replaceErr =
     Some (Inr (buf, replaceErr), assets)"
| "replace_all geturl path' prefix postfix (Lit c # segs) assets buf replaceErr =
     replace_all geturl path' prefix postfix segs assets (buf @ [c]) replaceErr"
| "replace_all geturl path' prefix postfix (Match m # segs) assets buf replaceErr =
     (case replace_match geturl path' prefix postfix assets m of
        None \<Rightarrow> None
      | Some (Inl e, assets') \<Rightarrow> Some (Inl e, assets')
      | Some (Inr (out, err), assets') \<Rightarrow>
          replace_all geturl path' prefix postfix segs assets' (buf @ out)
            (case err of None \<Rightarrow> replaceErr | Some e \<Rightarrow> Some e))"

text \<open>
  \<open>replaceProcessor\<close>. \<open>ReplaceAllFunc\<close> builds its result by appending to a \<open>nil\<close>
  buffer, so an empty result is the \<open>nil\<close> slice.
\<close>

definition replaceProcessor ::
  "(Assets \<Rightarrow> string \<Rightarrow> string res) \<Rightarrow> Assets \<Rightarrow> string \<Rightarrow> slice
     \<Rightarrow> (string \<Rightarrow> nat option) \<Rightarrow> string \<Rightarrow> string \<Rightarrow> slice res" where
  "replaceProcessor geturl assets path' content regex prefix postfix =
     (case replace_all geturl path' prefix postfix (find_all regex (bytes_of content))
             assets [] None of
        None \<Rightarrow> None
      | Some (Inl e, assets') \<Rightarrow> Some (Inl e, assets')
      | Some (Inr (newContent, replaceErr), assets') \<Rightarrow>
          (case replaceErr of
             Some e \<Rightarrow> Some (Inl e, assets')
           | None \<Rightarrow> Some (Inr (if newContent = [] then None else Some newContent), assets')))"

text \<open>A preprocessor applied, as \<open>processor(f, virtualPath, fileContent)\<close> in \<open>Get\<close>.\<close>

fun processor ::
  "env \<Rightarrow> (Assets \<Rightarrow> string \<Rightarrow> string res) \<Rightarrow> Preprocessor \<Rightarrow> Assets \<Rightarrow> string \<Rightarrow> slice
     \<Rightarrow> slice res" where
  "processor E geturl AssetCssPreprocessor assets path' content =
     replaceProcessor geturl assets path' content cssUrlRegex ''url('' '')''"
| "processor E geturl AssetSourceMapPreprocessor assets path' content =
     replaceProcessor geturl assets path' content sourceMapRegex ''sourceMappingURL='' []"
| "processor E geturl (UserPreprocessor i) assets path' content =
     (case user_preprocessor E i path' content of
        Inl e \<Rightarrow> Some (Inl (Error e), assets)
      | Inr newContent \<Rightarrow> Some (Inr newContent, assets))"

text \<open>The loop of \<open>Get\<close> over the preprocessors of the extension.\<close>

fun preprocess ::
  "env \<Rightarrow> (Assets \<Rightarrow> string \<Rightarrow> string res) \<Rightarrow> Preprocessor list \<Rightarrow> Assets \<Rightarrow> string \<Rightarrow> slice
     \<Rightarrow> slice res" where
  "preprocess E geturl [] assets virtualPath fileContent = Some (Inr fileContent, assets)"
| "preprocess E geturl (p # ps) assets virtualPath fileContent =
     (case processor E geturl p assets virtualPath fileContent of
        None \<Rightarrow> None
      | Some (Inl e, assets') \<Rightarrow> Some (Inl e, assets')
      | Some (Inr newContent, assets') \<Rightarrow> preprocess E geturl ps assets' virtualPath newContent)"

subsection \<open>Get, GetUrl and Serve\<close>

definition set_file :: "Assets \<Rightarrow> nat \<Rightarrow> File \<Rightarrow> Assets" where
  "set_file f a file = f\<lparr>store := (store f)(a := file)\<rparr>"

text \<open>
  The last part of \<open>Get\<close>. \<open>enter_checksum\<close> is the registry when \<open>Get\<close> releases
  the lock after entering the file in \<open>byChecksum\<close>: the compressed content and the hash
  are stored, \<open>Content\<close> is not yet. \<open>publish\<close> then sets \<open>Content\<close>, which \<open>Get\<close> does last.
\<close>

definition enter_checksum :: "env \<Rightarrow> Assets \<Rightarrow> nat \<Rightarrow> slice \<Rightarrow> Assets" where
  "enter_checksum E f a fileContent =
     (let hash = sha1 E (bytes_of fileContent);
          f1 = set_file f a ((store f a)\<lparr>ContentGZipped := Some (gzip E (bytes_of fileContent))\<rparr>);
          f2 = set_file f1 a ((store f1 a)\<lparr>Hash := Some hash, HashString := EncodeToString hash\<rparr>)
      in f2\<lparr>byChecksum := (byChecksum f2)(HashString (store f2 a) \<mapsto> a)\<rparr>)"

definition publish :: "env \<Rightarrow> Assets \<Rightarrow> nat \<Rightarrow> slice \<Rightarrow> Assets" where
  "publish E f a fileContent =
     (let f3 = enter_checksum E f a fileContent
      in set_file f3 a ((store f3 a)\<lparr>Content := fileContent\<rparr>))"

text \<open>
  The body of \<open>Get\<close>; \<open>geturl\<close> is the \<open>GetUrl\<close> that the reference rewriter calls.
\<close>

definition Get_body ::
  "env \<Rightarrow> (Assets \<Rightarrow> string \<Rightarrow> string res) \<Rightarrow> Assets \<Rightarrow> string \<Rightarrow> nat res" where
  "Get_body E geturl f virtualPath =
     (case entries f virtualPath of
        None \<Rightarrow> Some (Inl (Error (''File Not Found: '' @ virtualPath)), f)
      | Some file \<Rightarrow>
          if Content (store f file) \<noteq> None then Some (Inr file, f)
          else
            (case ReadFile E (path (store f file)) of
               Inl err \<Rightarrow> Some (Inl (Error err), f)
             | Inr fileContent \<Rightarrow>
                 let extension = filepath_Ext (path (store f file));
                     byExt = TypeByExtension E extension;
                     f1 = set_file f file ((store f file)\<lparr>ContentType :=
                            (if byExt = [] then DetectContentType E fileContent else byExt)\<rparr>)
                 in (case preprocess E geturl
                            (case preprocessors f1 extension of None \<Rightarrow> [] | Some ps \<Rightarrow> ps)
                            f1 virtualPath (Some fileContent) of
                       None \<Rightarrow> None
                     | Some (Inl e, f2) \<Rightarrow> Some (Inl e, f2)
                     | Some (Inr fileContent', f2) \<Rightarrow>
                         Some (Inr file, publish E f2 file fileContent'))))"

definition GetUrl_of :: "(Assets \<Rightarrow> string \<Rightarrow> nat res) \<Rightarrow> Assets \<Rightarrow> string \<Rightarrow> string res" where
  "GetUrl_of get f virtualPath =
     (case get f virtualPath of
        None \<Rightarrow> None
      | Some (Inl err, f') \<Rightarrow> Some (Inl err, f')
      | Some (Inr file, f') \<Rightarrow> Some (Inr (baseURL f' @ HashString (store f' file)), f'))"

text \<open>
  \<open>Get\<close> with fuel: the number of nested calls of \<open>Get\<close> it may make through the
  reference rewriter. The result is the address of the file.
\<close>

primrec Get :: "env \<Rightarrow> nat \<Rightarrow> Assets \<Rightarrow> string \<Rightarrow> nat res" where
  "Get E 0 = (\<lambda>f virtualPath. None)"
| "Get E (Suc n) = Get_body E (GetUrl_of (Get E n))"

definition GetUrl :: "env \<Rightarrow> nat \<Rightarrow> Assets \<Rightarrow> string \<Rightarrow> string res" where
  "GetUrl E n = GetUrl_of (Get E n)"

definition httpError :: "response \<Rightarrow> nat \<Rightarrow> string \<Rightarrow> response" where
  "httpError w code message =
     Write (WriteHeader (Header_Set w ''Content-Type'' ''text/plain; charset=utf-8'') code)
       (message @ [CHR 0x0A])"

text \<open>The test \<open>r != nil && strings.Contains(r.Header.Get("Accept-Encoding"), "gzip")\<close>.\<close>

definition accepts_gzip :: "request option \<Rightarrow> bool" where
  "accepts_gzip r =
     (case r of None \<Rightarrow> False | Some req \<Rightarrow> Contains (Header_Get req ''Accept-Encoding'') ''gzip'')"

definition Serve :: "env \<Rightarrow> Assets \<Rightarrow> string \<Rightarrow> response \<Rightarrow> request option \<Rightarrow> response" where
  "Serve E f url w r =
     (if length url < length (baseURL f) then httpError w 404 ''404 - File not found''
      else
        let checksum = drop (length (baseURL f)) url
        in (case byChecksum f checksum of
              None \<Rightarrow> httpError w 404 ''404 - File not found''
            | Some file \<Rightarrow>
                let w1 = Header_Set w ''Content-Type'' (ContentType (store f file));
                    w2 = Header_Set w1 ''Expires'' (expires E)
                in if accepts_gzip r
                   then Write (Header_Set w2 ''Content-Encoding'' ''gzip'')
                          (bytes_of (ContentGZipped (store f file)))
                   else Write w2 (bytes_of (Content (store f file)))))"

subsection \<open>Templates\<close>

definition template_New :: "string \<Rightarrow> template" where
  "template_New name = [name \<mapsto> None]"

text \<open>
  The inner loop of \<open>GetTemplate\<close>: a parsed template is added under its name unless
  \<open>Lookup\<close> finds the name.
\<close>

fun add_templates :: "template \<Rightarrow> (string \<times> tree) list \<Rightarrow> template" where
  "add_templates tmpl [] = tmpl"
| "add_templates tmpl ((name, t) # ts) =
     (if tmpl name = None then add_templates (tmpl(name \<mapsto> Some t)) ts
      else add_templates tmpl ts)"

text \<open>The outer loop of \<open>GetTemplate\<close> over the paths.\<close>

fun compile_paths :: "env \<Rightarrow> nat \<Rightarrow> string list \<Rightarrow> Assets \<Rightarrow> template \<Rightarrow> template res" where
  "compile_paths E n [] f tmpl = Some (Inr tmpl, f)"
| "compile_paths E n (path' # paths) f tmpl =
     (if path' \<noteq> [] then
        (case Get E n f path' of
           None \<Rightarrow> None
         | Some (Inl err, f') \<Rightarrow> Some (Inl err, f')
         | Some (Inr file, f') \<Rightarrow>
             (case Parse E (templateFuncMap f') path' (bytes_of (Content (store f' file))) of
                Inl err \<Rightarrow> Some (Inl (Error (path' @ '': '' @ err)), f')
              | Inr temp \<Rightarrow> compile_paths E n paths f' (add_templates tmpl temp)))
      else compile_paths E n paths f tmpl)"

definition GetTemplate :: "env \<Rightarrow> nat \<Rightarrow> Assets \<Rightarrow> string list \<Rightarrow> template res" where
  "GetTemplate E n f templatePathArr =
     (let f1 = (if version f \<noteq> templateCacheVersion f
                then f\<lparr>templateCacheVersion := version f, templateCache := Map.empty\<rparr>
                else f);
          cacheKey = Join templatePathArr ''<''
      in case templateCache f1 cacheKey of
           Some tmpl \<Rightarrow> Some (Inr tmpl, f1)
         | None \<Rightarrow>
             (case compile_paths E n templatePathArr f1
                     (template_New ''temp-outer-template-shell'') of
                None \<Rightarrow> None
              | Some (Inl err, f2) \<Rightarrow> Some (Inl err, f2)
              | Some (Inr tmpl, f2) \<Rightarrow>
                  Some (Inr tmpl, f2\<lparr>templateCache := (templateCache f2)(cacheKey \<mapsto> tmpl)\<rparr>)))"

text \<open>
  \<open>RenderNamedTemplate\<close> returns the error (\<open>None\<close> for \<open>nil\<close>) and the response; a panic
  below it is passed on.
\<close>

definition RenderNamedTemplate ::
  "env \<Rightarrow> nat \<Rightarrow> Assets \<Rightarrow> string list \<Rightarrow> string \<Rightarrow> response \<Rightarrow> string
     \<Rightarrow> (failure option \<times> response) res" where
  "RenderNamedTemplate E n f templatePathArr name w data =
     (case GetTemplate E n f templatePathArr of
        None \<Rightarrow> None
      | Some (Inl (Panic p), f') \<Rightarrow> Some (Inl (Panic p), f')
      | Some (Inl (Error e), f') \<Rightarrow> Some (Inr (Some (Error e), httpError w 500 e), f')
      | Some (Inr t, f') \<Rightarrow>
          (case ExecuteTemplate E t name data of
             (out, err) \<Rightarrow>
               let w' = (if out = [] then w else Write w out)
               in (case err of
                     Some e \<Rightarrow> Some (Inr (Some (Error e), httpError w' 500 e), f')
                   | None \<Rightarrow> Some (Inr (None, w'), f'))))"

text \<open>
  The index expression \<open>templatePathArr[len(templatePathArr)-1]\<close> of \<open>RenderTemplate\<close>:
  out of range, a run-time panic, on the empty slice.
\<close>

definition last_path :: "string list \<Rightarrow> failure + string" where
  "last_path templatePathArr =
     (if int (length templatePathArr) - 1 < 0 \<or>
         int (length templatePathArr) \<le> int (length templatePathArr) - 1
      then Inl (Panic ''index out of range'')
      else Inr (templatePathArr ! (length templatePathArr - 1)))"

definition RenderTemplate ::
  "env \<Rightarrow> nat \<Rightarrow> Assets \<Rightarrow> string list \<Rightarrow> response \<Rightarrow> string
     \<Rightarrow> (failure option \<times> response) res" where
  "RenderTemplate E n f templatePathArr w data =
     (case last_path templatePathArr of
        Inl e \<Rightarrow> Some (Inl e, f)
      | Inr name \<Rightarrow> RenderNamedTemplate E n f templatePathArr name w data)"

text \<open>
  The template functions \<open>asset\<close> and \<open>assetinline\<close> that \<open>NewAssets\<close> installs. Each
  reads the byte \<open>virtualPath[0]\<close> first, which is out of range on the empty string.
\<close>

definition separator_message :: string where
  "separator_message = ''path argument must start with '' @ [CHR 0x27, CHR ''/'', CHR 0x27]"

definition asset :: "env \<Rightarrow> nat \<Rightarrow> Assets \<Rightarrow> string \<Rightarrow> string res" where
  "asset E n assets virtualPath =
     (case virtualPath of
        [] \<Rightarrow> Some (Inl (Panic ''index out of range''), assets)
      | c # _ \<Rightarrow>
          if c \<noteq> CHR ''/'' then Some (Inl (Error separator_message), assets)
          else GetUrl E n assets virtualPath)"

definition assetinline :: "env \<Rightarrow> nat \<Rightarrow> Assets \<Rightarrow> string \<Rightarrow> string res" where
  "assetinline E n assets virtualPath =
     (case virtualPath of
        [] \<Rightarrow> Some (Inl (Panic ''index out of range''), assets)
      | c # _ \<Rightarrow>
          if c \<noteq> CHR ''/'' then Some (Inl (Error separator_message), assets)
          else
            (case Get E n assets virtualPath of
               None \<Rightarrow> None
             | Some (Inl err, assets') \<Rightarrow> Some (Inl err, assets')
             | Some (Inr file, assets') \<Rightarrow>
                 Some (Inr (bytes_of (Content (store assets' file))), assets')))"

subsection \<open>Sequences of operations\<close>

text \<open>
  The calls a client can make, and their effect on the registry. \<open>exec\<close> is \<open>None\<close> when
  the call does not return. A call that fails or panics leaves the registry as it is at
  that moment.
\<close>

datatype op =
    OpAddFile string string
  | OpAddDirectory "(string \<times> string) list" string
  | OpAddPreprocessor string Preprocessor
  | OpClearPreprocessors string
  | OpSetTemplateFunc string tfunc
  | OpGet nat string
  | OpGetUrl nat string
  | OpServe string response "request option"
  | OpGetTemplate nat "string list"
  | OpRenderNamedTemplate nat "string list" string response string
  | OpRenderTemplate nat "string list" response string
  | OpAsset nat string
  | OpAssetinline nat string

definition after :: "'a res \<Rightarrow> Assets option" where
  "after r = map_option snd r"

fun exec :: "env \<Rightarrow> op \<Rightarrow> Assets \<Rightarrow> Assets option" where
  "exec E (OpAddFile file virtualPath) f = Some (AddFile f file virtualPath)"
| "exec E (OpAddDirectory walk virtualPath) f = Some (AddDirectory f walk virtualPath)"
| "exec E (OpAddPreprocessor extension p) f = Some (AddPreprocessor f extension p)"
| "exec E (OpClearPreprocessors extension) f = Some (ClearPreprocessors f extension)"
| "exec E (OpSetTemplateFunc name fn) f = Some (SetTemplateFunc f name fn)"
| "exec E (OpGet n virtualPath) f = after (Get E n f virtualPath)"
| "exec E (OpGetUrl n virtualPath) f = after (GetUrl E n f virtualPath)"
| "exec E (OpServe url w r) f = Some f"
| "exec E (OpGetTemplate n paths) f = after (GetTemplate E n f paths)"
| "exec E (OpRenderNamedTemplate n paths name w d) f =
     after (RenderNamedTemplate E n f paths name w d)"
| "exec E (OpRenderTemplate n paths w d) f = after (RenderTemplate E n f paths w d)"
| "exec E (OpAsset n virtualPath) f = after (asset E n f virtualPath)"
| "exec E (OpAssetinline n virtualPath) f = after (assetinline E n f virtualPath)"

fun run :: "env \<Rightarrow> op list \<Rightarrow> Assets \<Rightarrow> Assets option" where
  "run E [] f = Some f"
| "run E (x # xs) f = (case exec E x f of None \<Rightarrow> None | Some f' \<Rightarrow> run E xs f')"


subsection \<open>A small environment for concrete runs\<close>

text \<open>
  A file system of three files and stand-ins for the functions that the package takes
  from outside, used where a statement is evaluated on a concrete input.
\<close>

definition demo_ReadFile :: "string \<Rightarrow> string + string" where
  "demo_ReadFile p =
     (if p = ''www/site.css'' then Inr ''a{background:url(./logo.png)}''
      else if p = ''www/logo.png'' then Inr ''PNG''
      else if p = ''www/blank.css'' then Inr ''b{background:url( )}''
      else if p = ''www/empty.css'' then Inr []
      else if p = ''www/a.html'' then Inr ''A''
      else if p = ''www/b.html'' then Inr ''B''
      else Inl (''open '' @ p @ '': no such file or directory''))"

definition demo_digest :: "string \<Rightarrow> string" where
  "demo_digest c = [char_of (length c), char_of (sum_list (map of_char c) :: nat)]"

definition demo_Parse ::
  "(string \<rightharpoonup> tfunc) \<Rightarrow> string \<Rightarrow> string \<Rightarrow> string + (string \<times> tree) list" where
  "demo_Parse funcs name text = Inr [(name, Tree text), (''header'', Tree (''header of '' @ text))]"

definition demo_env :: env where
  "demo_env =
     \<lparr>ReadFile = demo_ReadFile,
      TypeByExtension = (\<lambda>e. if e = ''.css'' then ''text/css; charset=utf-8''
                              else if e = ''.png'' then ''image/png'' else []),
      DetectContentType = (\<lambda>c. ''text/plain; charset=utf-8''),
      gzip = (\<lambda>c. ''GZ'' @ c),
      sha1 = demo_digest,
      user_preprocessor = (\<lambda>i p c. Inr None),
      Parse = demo_Parse,
      ExecuteTemplate = (\<lambda>t name d. (name, None)),
      expires = ''Mon, 01 Jan 2001 00:00:00 GMT''\<rparr>"

definition demo_response :: response where
  "demo_response = \<lparr>header = Map.empty, status = None, body = []\<rparr>"

subsection \<open>Invariants\<close>

text \<open>
  \<open>preserved R g\<close>: every returning call of \<open>g\<close> relates the registry before to the
  registry after. \<open>closed_rel E R\<close>: \<open>R\<close> is a preorder that holds across the two
  assignments by which \<open>Get\<close> changes the registry, the content type of a registered file
  without content and the publication of such a file.
\<close>

definition preserved :: "(Assets \<Rightarrow> Assets \<Rightarrow> bool) \<Rightarrow> (Assets \<Rightarrow> string \<Rightarrow> 'a res) \<Rightarrow> bool" where
  "preserved R g = (\<forall>f vp r f'. g f vp = Some (r, f') \<longrightarrow> R f f')"

definition closed_rel :: "env \<Rightarrow> (Assets \<Rightarrow> Assets \<Rightarrow> bool) \<Rightarrow> bool" where
  "closed_rel E R =
     ((\<forall>f. R f f) \<and> (\<forall>f g h. R f g \<longrightarrow> R g h \<longrightarrow> R f h) \<and>
      (\<forall>f vp a ct. entries f vp = Some a \<longrightarrow> Content (store f a) = None \<longrightarrow>
         R f (set_file f a ((store f a)\<lparr>ContentType := ct\<rparr>))) \<and>
      (\<forall>f g vp a c. R f g \<longrightarrow> entries f vp = Some a \<longrightarrow> Content (store f a) = None \<longrightarrow>
         R f (publish E g a c)))"

text \<open>
  A file that \<open>Get\<close> has not published, and a file whose compressed content and hash
  are those of its content.
\<close>

definition fresh :: "File \<Rightarrow> bool" where
  "fresh file =
     (Content file = None \<and> ContentGZipped file = None \<and> Hash file = None \<and> HashString file = [])"

definition consistent :: "env \<Rightarrow> File \<Rightarrow> bool" where
  "consistent E file =
     (ContentGZipped file = Some (gzip E (bytes_of (Content file))) \<and>
      Hash file = Some (sha1 E (bytes_of (Content file))) \<and>
      HashString file = EncodeToString (sha1 E (bytes_of (Content file))))"

text \<open>
  The state invariant: every file is fresh or consistent, \<open>byChecksum\<close> holds consistent
  allocated files only, the registered paths point to allocated files, and the addresses
  not yet allocated hold fresh files.
\<close>

definition Inv :: "env \<Rightarrow> Assets \<Rightarrow> bool" where
  "Inv E f =
     ((\<forall>a. fresh (store f a) \<or> consistent E (store f a)) \<and>
      (\<forall>k a. byChecksum f k = Some a \<longrightarrow> consistent E (store f a) \<and> a < next_addr f) \<and>
      (\<forall>vp a. entries f vp = Some a \<longrightarrow> a < next_addr f) \<and>
      (\<forall>a. next_addr f \<le> a \<longrightarrow> fresh (store f a)))"

text \<open>
  What a call of \<open>Get\<close> may change: nothing but the store and \<open>byChecksum\<close>; in the store
  no path and no file that has content; \<open>byChecksum\<close> loses no key; the invariant stays.
\<close>

definition evolve :: "env \<Rightarrow> Assets \<Rightarrow> Assets \<Rightarrow> bool" where
  "evolve E f g =
     (version g = version f \<and> baseURL g = baseURL f \<and> preprocessors g = preprocessors f \<and>
      next_addr g = next_addr f \<and> entries g = entries f \<and>
      templateFuncMap g = templateFuncMap f \<and>
      (\<forall>a. path (store g a) = path (store f a)) \<and>
      (\<forall>a. Content (store f a) \<noteq> None \<longrightarrow> store g a = store f a) \<and>
      (\<forall>k. byChecksum f k \<noteq> None \<longrightarrow> byChecksum g k \<noteq> None) \<and>
      (Inv E f \<longrightarrow> Inv E g))"

definition same_cache :: "Assets \<Rightarrow> Assets \<Rightarrow> bool" where
  "same_cache f g =
     (templateCache g = templateCache f \<and> templateCacheVersion g = templateCacheVersion f)"

text \<open>The operations that go through \<open>Get\<close>.\<close>

definition calls_Get :: "op \<Rightarrow> bool" where
  "calls_Get x =
     (case x of
        OpGet n p \<Rightarrow> True | OpGetUrl n p \<Rightarrow> True | OpGetTemplate n ps \<Rightarrow> True
      | OpRenderNamedTemplate n ps name w d \<Rightarrow> True | OpRenderTemplate n ps w d \<Rightarrow> True
      | OpAsset n p \<Rightarrow> True | OpAssetinline n p \<Rightarrow> True | _ \<Rightarrow> False)"

section \<open>Properties\<close>

subsection \<open>The index expression of RenderTemplate\<close>

lemma last_path_Nil: "last_path [] = Inl (Panic ''index out of range'')"
  by (simp add: last_path_def)

lemma last_path_nonempty: "xs \<noteq> [] \<Longrightarrow> last_path xs = Inr (last xs)"
  by (cases xs rule: rev_cases) (simp_all add: last_path_def)

text \<open>
  C10. \<open>RenderTemplate\<close> takes the template name from the last element of the path list.
  On the empty list the index is out of range and the call panics; it does not return an
  error. On a non-empty list the index expression yields the last path, never a panic, and
  the call is \<open>RenderNamedTemplate\<close> with that name.
\<close>

theorem RenderTemplate_index:
  "RenderTemplate E n f [] w d = Some (Inl (Panic ''index out of range''), f) \<and>
   (templatePathArr \<noteq> [] \<longrightarrow>
      last_path templatePathArr = Inr (last templatePathArr) \<and>
      RenderTemplate E n f templatePathArr w d =
        RenderNamedTemplate E n f templatePathArr (last templatePathArr) w d)"
  by (simp add: RenderTemplate_def last_path_Nil last_path_nonempty)

theorem RenderTemplate_index_witness:
  "[''/a.html'', ''/b.html''] \<noteq> [] \<and>
   last_path [''/a.html'', ''/b.html''] = Inr ''/b.html'' \<and>
   RenderTemplate demo_env 1 (NewAssets ''/a/'') [''/a.html'', ''/b.html''] demo_response [] =
     RenderNamedTemplate demo_env 1 (NewAssets ''/a/'') [''/a.html'', ''/b.html''] ''/b.html''
       demo_response []"
  using RenderTemplate_index [of demo_env 1 "NewAssets ''/a/''" demo_response "[]"
      "[''/a.html'', ''/b.html'']"]
  by simp

subsection \<open>The template functions asset and assetinline\<close>

lemma asset_no_separator:
  "c \<noteq> CHR ''/'' \<Longrightarrow>
   asset E n f (c # cs) = Some (Inl (Error separator_message), f) \<and>
   assetinline E n f (c # cs) = Some (Inl (Error separator_message), f)"
  by (simp add: asset_def assetinline_def)

lemma asset_separator:
  "asset E n f (CHR ''/'' # cs) = GetUrl E n f (CHR ''/'' # cs)"
  "Get E n f (CHR ''/'' # cs) = Some (Inr file, g) \<Longrightarrow>
     assetinline E n f (CHR ''/'' # cs) = Some (Inr (bytes_of (Content (store g file))), g)"
  by (simp_all add: asset_def assetinline_def)

text \<open>
  C9, at the empty string. The specification has \<open>asset\<close> and \<open>assetinline\<close> return an error for
  every argument that does not begin with the separator, the empty string included. Both
  functions read \<open>virtualPath[0]\<close> before anything else, so on the empty string they panic
  and return nothing.
\<close>

theorem asset_empty_string_panics:
  "asset E n f [] = Some (Inl (Panic ''index out of range''), f) \<and>
   assetinline E n f [] = Some (Inl (Panic ''index out of range''), f)"
  by (simp add: asset_def assetinline_def)

subsection \<open>What Get preserves\<close>

lemma closed_rel_refl: "closed_rel E R \<Longrightarrow> R f f"
  by (simp add: closed_rel_def)

lemma closed_rel_trans: "closed_rel E R \<Longrightarrow> R f g \<Longrightarrow> R g h \<Longrightarrow> R f h"
  unfolding closed_rel_def by blast

lemma replace_match_rel:
  assumes "closed_rel E R" and "preserved R geturl"
    and "replace_match geturl p pre post f m = Some (r, f')"
  shows "R f f'"
  using assms(2,3) closed_rel_refl [OF assms(1)]
  by (auto simp: replace_match_def preserved_def Let_def
      split: sum.splits failure.splits option.splits prod.splits)

lemma replace_all_rel:
  assumes "closed_rel E R" and "preserved R geturl"
  shows "replace_all geturl p pre post segs f buf err = Some (r, f') \<Longrightarrow> R f f'"
proof (induction segs arbitrary: f buf err)
  case Nil
  then show ?case using closed_rel_refl [OF assms(1)] by simp
next
  case (Cons sg segs)
  show ?case
  proof (cases sg)
    case (Lit c)
    with Cons show ?thesis by simp
  next
    case (Match m)
    with Cons.prems consider
      (go) out e g where "replace_match geturl p pre post f m = Some (Inr (out, e), g)"
        "replace_all geturl p pre post segs g (buf @ out)
            (case e of None \<Rightarrow> err | Some x \<Rightarrow> Some x) = Some (r, f')"
      | (stop) x where "replace_match geturl p pre post f m = Some (Inl x, f')"
      by (auto split: option.splits sum.splits prod.splits)
    then show ?thesis
    proof cases
      case go
      then show ?thesis
        using replace_match_rel [OF assms] Cons.IH closed_rel_trans [OF assms(1)] by blast
    next
      case stop
      then show ?thesis using replace_match_rel [OF assms] by blast
    qed
  qed
qed

lemma replaceProcessor_rel:
  assumes "closed_rel E R" and "preserved R geturl"
    and "replaceProcessor geturl f p content re pre post = Some (r, f')"
  shows "R f f'"
  using assms(3) replace_all_rel [OF assms(1,2)]
  by (auto simp: replaceProcessor_def split: option.splits sum.splits prod.splits)

lemma processor_rel:
  assumes "closed_rel E R" and "preserved R geturl"
    and "processor E' geturl pp f p content = Some (r, f')"
  shows "R f f'"
  using assms(3) replaceProcessor_rel [OF assms(1,2)] closed_rel_refl [OF assms(1)]
  by (cases pp) (auto split: sum.splits)

lemma preprocess_rel:
  assumes "closed_rel E R" and "preserved R geturl"
  shows "preprocess E' geturl ps f p content = Some (r, f') \<Longrightarrow> R f f'"
proof (induction ps arbitrary: f content)
  case Nil
  then show ?case using closed_rel_refl [OF assms(1)] by simp
next
  case (Cons pp ps)
  from Cons.prems consider
    (go) c g where "processor E' geturl pp f p content = Some (Inr c, g)"
      "preprocess E' geturl ps g p c = Some (r, f')"
    | (stop) x where "processor E' geturl pp f p content = Some (Inl x, f')"
    by (auto split: option.splits sum.splits prod.splits)
  then show ?case
  proof cases
    case go
    then show ?thesis
      using processor_rel [OF assms] Cons.IH closed_rel_trans [OF assms(1)] by blast
  next
    case stop
    then show ?thesis using processor_rel [OF assms] by blast
  qed
qed

lemma Get_body_rel:
  assumes "closed_rel E R" and "preserved R geturl"
    and "Get_body E geturl f vp = Some (r, f')"
  shows "R f f'"
proof (cases "entries f vp")
  case None
  with assms(3) show ?thesis using closed_rel_refl [OF assms(1)] by (simp add: Get_body_def)
next
  case (Some a)
  show ?thesis
  proof (cases "Content (store f a) = None")
    case False
    with Some assms(3) show ?thesis
      using closed_rel_refl [OF assms(1)] by (auto simp: Get_body_def)
  next
    case True
    show ?thesis
    proof (cases "ReadFile E (path (store f a))")
      case (Inl e)
      with Some True assms(3) show ?thesis
        using closed_rel_refl [OF assms(1)] by (simp add: Get_body_def)
    next
      case (Inr raw)
      define ct where "ct = (if TypeByExtension E (filepath_Ext (path (store f a))) = []
          then DetectContentType E raw else TypeByExtension E (filepath_Ext (path (store f a))))"
      define f1 where "f1 = set_file f a ((store f a)\<lparr>ContentType := ct\<rparr>)"
      have 1: "R f f1"
        using assms(1) True Some unfolding closed_rel_def f1_def by blast
      define ps where
        "ps = (case preprocessors f1 (filepath_Ext (path (store f a))) of None \<Rightarrow> [] | Some ps \<Rightarrow> ps)"
      from assms(3) Some True Inr consider
        (go) c g where "preprocess E geturl ps f1 vp (Some raw) = Some (Inr c, g)"
          "f' = publish E g a c"
        | (stop) x where "preprocess E geturl ps f1 vp (Some raw) = Some (Inl x, f')"
        by (auto simp: Get_body_def Let_def f1_def ct_def ps_def
            split: option.splits sum.splits prod.splits)
      then show ?thesis
      proof cases
        case go
        have "R f g"
          using preprocess_rel [OF assms(1,2) go(1)] 1 closed_rel_trans [OF assms(1)] by blast
        then show ?thesis
          using True Some assms(1) go(2) unfolding closed_rel_def by blast
      next
        case stop
        then show ?thesis
          using preprocess_rel [OF assms(1,2)] 1 closed_rel_trans [OF assms(1)] by blast
      qed
    qed
  qed
qed

lemma GetUrl_of_rel:
  assumes "preserved R get"
  shows "preserved R (GetUrl_of get)"
  using assms by (auto simp: preserved_def GetUrl_of_def split: option.splits sum.splits prod.splits)

lemma Get_preserved:
  assumes "closed_rel E R"
  shows "preserved R (Get E n)"
proof (induction n)
  case 0
  show ?case by (simp add: preserved_def)
next
  case (Suc n)
  show ?case
    unfolding preserved_def
    using Get_body_rel [OF assms GetUrl_of_rel [OF Suc]] by auto
qed


lemma publish_simps [simp]:
  "version (publish E g a c) = version g"
  "baseURL (publish E g a c) = baseURL g"
  "preprocessors (publish E g a c) = preprocessors g"
  "next_addr (publish E g a c) = next_addr g"
  "entries (publish E g a c) = entries g"
  "templateFuncMap (publish E g a c) = templateFuncMap g"
  "templateCache (publish E g a c) = templateCache g"
  "templateCacheVersion (publish E g a c) = templateCacheVersion g"
  "byChecksum (publish E g a c) =
     (byChecksum g)(EncodeToString (sha1 E (bytes_of c)) \<mapsto> a)"
  "store (publish E g a c) =
     (store g)(a := (store g a)\<lparr>ContentGZipped := Some (gzip E (bytes_of c)),
        Hash := Some (sha1 E (bytes_of c)), HashString := EncodeToString (sha1 E (bytes_of c)),
        Content := c\<rparr>)"
  by (simp_all add: publish_def enter_checksum_def set_file_def Let_def fun_eq_iff)

lemma set_file_simps [simp]:
  "version (set_file g a x) = version g"
  "baseURL (set_file g a x) = baseURL g"
  "preprocessors (set_file g a x) = preprocessors g"
  "next_addr (set_file g a x) = next_addr g"
  "entries (set_file g a x) = entries g"
  "templateFuncMap (set_file g a x) = templateFuncMap g"
  "templateCache (set_file g a x) = templateCache g"
  "templateCacheVersion (set_file g a x) = templateCacheVersion g"
  "byChecksum (set_file g a x) = byChecksum g"
  "store (set_file g a x) = (store g)(a := x)"
  by (simp_all add: set_file_def)

lemma Inv_set_ContentType:
  "Inv E f \<Longrightarrow> Inv E (set_file f a ((store f a)\<lparr>ContentType := ct\<rparr>))"
  by (auto simp: Inv_def fresh_def consistent_def)

lemma Inv_publish:
  "Inv E g \<Longrightarrow> a < next_addr g \<Longrightarrow> Inv E (publish E g a c)"
  by (auto simp: Inv_def fresh_def consistent_def)

lemma evolve_refl: "evolve E f f"
  by (simp add: evolve_def)

lemma evolve_trans: "evolve E f g \<Longrightarrow> evolve E g h \<Longrightarrow> evolve E f h"
  by (simp add: evolve_def)

lemma closed_rel_evolve: "closed_rel E (evolve E)"
proof -
  have 1: "evolve E f (set_file f a ((store f a)\<lparr>ContentType := ct\<rparr>))"
    if "Content (store f a) = None" for f a ct
    using that Inv_set_ContentType [of E f a ct] by (auto simp: evolve_def)
  have 2: "evolve E f (publish E g a c)"
    if "evolve E f g" "entries f vp = Some a" "Content (store f a) = None" for f g vp a c
  proof -
    have "Inv E f \<Longrightarrow> a < next_addr g"
      using that by (auto simp: evolve_def Inv_def)
    then show ?thesis
      using that Inv_publish [of E g a c] by (auto simp: evolve_def)
  qed
  show ?thesis
    unfolding closed_rel_def using evolve_refl evolve_trans 1 2 by blast
qed

lemma closed_rel_same_cache: "closed_rel E same_cache"
  by (auto simp: closed_rel_def same_cache_def)

lemma Get_evolve: "Get E n f vp = Some (r, g) \<Longrightarrow> evolve E f g"
  using Get_preserved [OF closed_rel_evolve, of E n] by (auto simp: preserved_def)

lemma Get_same_cache: "Get E n f vp = Some (r, g) \<Longrightarrow> same_cache f g"
  using Get_preserved [OF closed_rel_same_cache, of E n] by (auto simp: preserved_def)

lemma evolve_cache [simp]:
  "evolve E f (g\<lparr>templateCache := c\<rparr>) = evolve E f g"
  "evolve E (f\<lparr>templateCacheVersion := v, templateCache := c\<rparr>) g = evolve E f g"
  by (auto simp: evolve_def Inv_def)

lemma GetUrl_evolve: "GetUrl E n f vp = Some (r, g) \<Longrightarrow> evolve E f g"
  by (auto simp: GetUrl_def GetUrl_of_def split: option.splits sum.splits prod.splits
      dest: Get_evolve)

lemma compile_paths_evolve:
  "compile_paths E n ps f t = Some (r, g) \<Longrightarrow> evolve E f g"
proof (induction ps arbitrary: f t)
  case Nil
  then show ?case by (simp add: evolve_refl)
next
  case (Cons p ps)
  show ?case
  proof (cases "p = []")
    case True
    with Cons show ?thesis by simp
  next
    case False
    with Cons.prems consider
      (go) a h ts where "Get E n f p = Some (Inr a, h)"
        "compile_paths E n ps h (add_templates t ts) = Some (r, g)"
      | (stop) x where "Get E n f p = Some (x, g)"
      by (auto split: option.splits sum.splits prod.splits)
    then show ?thesis
    proof cases
      case go
      then show ?thesis using Get_evolve Cons.IH evolve_trans by blast
    next
      case stop
      then show ?thesis using Get_evolve by blast
    qed
  qed
qed

lemma GetTemplate_evolve: "GetTemplate E n f ps = Some (r, g) \<Longrightarrow> evolve E f g"
  by (auto simp: GetTemplate_def Let_def evolve_refl
      split: option.splits sum.splits prod.splits if_splits
      dest!: compile_paths_evolve)

lemma RenderNamedTemplate_evolve:
  "RenderNamedTemplate E n f ps name w d = Some (r, g) \<Longrightarrow> evolve E f g"
  by (auto simp: RenderNamedTemplate_def Let_def
      split: option.splits sum.splits prod.splits failure.splits
      dest: GetTemplate_evolve)

lemma RenderTemplate_evolve:
  "RenderTemplate E n f ps w d = Some (r, g) \<Longrightarrow> evolve E f g"
  by (auto simp: RenderTemplate_def evolve_refl split: sum.splits
      dest: RenderNamedTemplate_evolve)

lemma asset_evolve: "asset E n f vp = Some (r, g) \<Longrightarrow> evolve E f g"
  by (auto simp: asset_def evolve_refl split: list.splits if_splits dest: GetUrl_evolve)

lemma assetinline_evolve: "assetinline E n f vp = Some (r, g) \<Longrightarrow> evolve E f g"
  by (auto simp: assetinline_def evolve_refl
      split: list.splits if_splits option.splits sum.splits prod.splits dest: Get_evolve)

lemma AddFile_simps [simp]:
  "version (AddFile f file vp) = version f + 1"
  "baseURL (AddFile f file vp) = baseURL f"
  "preprocessors (AddFile f file vp) = preprocessors f"
  "next_addr (AddFile f file vp) = Suc (next_addr f)"
  "entries (AddFile f file vp) = (entries f)(vp \<mapsto> next_addr f)"
  "templateFuncMap (AddFile f file vp) = templateFuncMap f"
  "templateCache (AddFile f file vp) = templateCache f"
  "templateCacheVersion (AddFile f file vp) = templateCacheVersion f"
  "byChecksum (AddFile f file vp) = byChecksum f"
  "store (AddFile f file vp) = (store f)(next_addr f := new_File file)"
  by (simp_all add: AddFile_def)





subsection \<open>The version counter\<close>



subsection \<open>The template cache\<close>


lemma compile_paths_same_cache:
  "compile_paths E n ps f t = Some (r, g) \<Longrightarrow> same_cache f g"
proof (induction ps arbitrary: f t)
  case Nil
  then show ?case by (simp add: same_cache_def)
next
  case (Cons p ps)
  show ?case
  proof (cases "p = []")
    case True
    with Cons show ?thesis by simp
  next
    case False
    with Cons.prems consider
      (go) a h ts where "Get E n f p = Some (Inr a, h)"
        "compile_paths E n ps h (add_templates t ts) = Some (r, g)"
      | (stop) x where "Get E n f p = Some (x, g)"
      by (auto split: option.splits sum.splits prod.splits)
    then show ?thesis
    proof cases
      case go
      then show ?thesis
        using Get_same_cache [OF go(1)] Cons.IH [OF go(2)] by (simp add: same_cache_def)
    next
      case stop
      then show ?thesis using Get_same_cache by blast
    qed
  qed
qed


text \<open>
  C6. When the version differs from the stamp of the cache, \<open>GetTemplate\<close> discards the
  whole cache and stamps it with the version before it looks the key up: the call is the
  call on the registry with an empty cache, and the cache it leaves holds nothing but the
  template just compiled, under the path list joined by \<open><\<close>. When the version equals the
  stamp and the key is present, the cached template is returned and the registry is
  untouched, whatever the fuel: nothing is read or compiled.
\<close>

theorem GetTemplate_cache:
  "(version f \<noteq> templateCacheVersion f \<longrightarrow> GetTemplate E n f paths = Some (r, g) \<longrightarrow>
      templateCacheVersion g = version g \<and>
      (\<forall>key. key \<noteq> Join paths ''<'' \<longrightarrow> templateCache g key = None) \<and>
      (\<forall>tmpl. r = Inr tmpl \<longrightarrow> templateCache g (Join paths ''<'') = Some tmpl) \<and>
      GetTemplate E n f paths =
        GetTemplate E n (f\<lparr>templateCacheVersion := version f, templateCache := Map.empty\<rparr>) paths) \<and>
   (version f' = templateCacheVersion f' \<longrightarrow> templateCache f' (Join paths ''<'') = Some tmpl' \<longrightarrow>
      GetTemplate E m f' paths = Some (Inr tmpl', f'))"
proof -
  have 2: "GetTemplate E m f' paths = Some (Inr tmpl', f')"
    if "version f' = templateCacheVersion f'" "templateCache f' (Join paths ''<'') = Some tmpl'"
    using that by (simp add: GetTemplate_def)
  let ?f1 = "f\<lparr>templateCacheVersion := version f, templateCache := Map.empty\<rparr>"
  have 1: "templateCacheVersion g = version g \<and>
      (\<forall>key. key \<noteq> Join paths ''<'' \<longrightarrow> templateCache g key = None) \<and>
      (\<forall>tmpl. r = Inr tmpl \<longrightarrow> templateCache g (Join paths ''<'') = Some tmpl)"
    if v: "version f \<noteq> templateCacheVersion f" and g: "GetTemplate E n f paths = Some (r, g)"
  proof -
    from v g consider
      (ok) t h where "compile_paths E n paths ?f1 (template_New ''temp-outer-template-shell'')
            = Some (Inr t, h)"
        "g = h\<lparr>templateCache := (templateCache h)(Join paths ''<'' \<mapsto> t)\<rparr>" "r = Inr t"
      | (err) e where "compile_paths E n paths ?f1 (template_New ''temp-outer-template-shell'')
            = Some (Inl e, g)" "r = Inl e"
      by (auto simp: GetTemplate_def split: option.splits sum.splits prod.splits)
    then show ?thesis
    proof cases
      case ok
      then show ?thesis
        using compile_paths_same_cache [OF ok(1)] compile_paths_evolve [OF ok(1)]
        by (auto simp: same_cache_def evolve_def)
    next
      case err
      then show ?thesis
        using compile_paths_same_cache [OF err(1)] compile_paths_evolve [OF err(1)]
        by (auto simp: same_cache_def evolve_def)
    qed
  qed
  have 3: "GetTemplate E n f paths = GetTemplate E n ?f1 paths"
    if "version f \<noteq> templateCacheVersion f"
    using that by (simp add: GetTemplate_def)
  show ?thesis using 1 2 3 by blast
qed

theorem GetTemplate_cache_witness:
  "\<exists>g tmpl.
     version (AddFile (NewAssets ''/a/'') ''www/a.html'' ''/a.html'') \<noteq>
       templateCacheVersion (AddFile (NewAssets ''/a/'') ''www/a.html'' ''/a.html'') \<and>
     GetTemplate demo_env 1 (AddFile (NewAssets ''/a/'') ''www/a.html'' ''/a.html'') [''/a.html'']
       = Some (Inr tmpl, g) \<and>
     version g = templateCacheVersion g \<and>
     templateCache g (Join [''/a.html''] ''<'') = Some tmpl \<and>
     GetTemplate demo_env 0 g [''/a.html''] = Some (Inr tmpl, g)"
proof -
  let ?f = "AddFile (NewAssets ''/a/'') ''www/a.html'' ''/a.html''"
  let ?x = "GetTemplate demo_env 1 ?f [''/a.html'']"
  have v: "version ?f \<noteq> templateCacheVersion ?f"
    by (simp add: AddFile_def NewAssets_def AddPreprocessor_def)
  have "?x \<noteq> None" by code_simp
  moreover have "(case fst (the ?x) of Inl e \<Rightarrow> False | Inr t \<Rightarrow> True)" by code_simp
  ultimately obtain tmpl g where x: "?x = Some (Inr tmpl, g)"
    by (auto split: sum.splits)
  have 1: "templateCacheVersion g = version g \<and>
      templateCache g (Join [''/a.html''] ''<'') = Some tmpl"
    using GetTemplate_cache [where E = demo_env and n = 1 and f = ?f and paths = "[''/a.html'']"
        and r = "Inr tmpl" and g = g] v x by blast
  then have "GetTemplate demo_env 0 g [''/a.html''] = Some (Inr tmpl, g)"
    using GetTemplate_cache [where E = demo_env and m = 0 and f' = g
        and paths = "[''/a.html'']" and tmpl' = tmpl] by simp
  with v x 1 show ?thesis by auto
qed



subsection \<open>The invariant over sequences of operations\<close>

lemma Inv_NewAssets: "Inv E (NewAssets b)"
  by (simp add: Inv_def NewAssets_def AddPreprocessor_def fresh_def new_File_def)

lemma Inv_AddFile: "Inv E f \<Longrightarrow> Inv E (AddFile f file vp)"
  unfolding Inv_def
  by (auto simp: fresh_def new_File_def less_Suc_eq)

lemma Inv_AddDirectory: "Inv E f \<Longrightarrow> Inv E (AddDirectory f walk vp)"
  by (induction f walk vp rule: AddDirectory.induct) (simp_all add: Inv_AddFile)

lemma exec_evolve:
  "calls_Get x \<Longrightarrow> exec E x f = Some g \<Longrightarrow> evolve E f g"
  by (cases x)
    (auto simp: calls_Get_def after_def
      dest: Get_evolve GetUrl_evolve GetTemplate_evolve RenderNamedTemplate_evolve
        RenderTemplate_evolve asset_evolve assetinline_evolve)

lemma AddDirectory_byChecksum: "byChecksum (AddDirectory f walk vp) = byChecksum f"
  by (induction f walk vp rule: AddDirectory.induct) simp_all

lemma exec_byChecksum:
  "\<not> calls_Get x \<Longrightarrow> exec E x f = Some g \<Longrightarrow> byChecksum g = byChecksum f"
  by (cases x)
    (auto simp: calls_Get_def AddDirectory_byChecksum AddPreprocessor_def
      ClearPreprocessors_def SetTemplateFunc_def)

lemma Inv_other_fields:
  "Inv E (AddPreprocessor f ext p) = Inv E f"
  "Inv E (ClearPreprocessors f ext) = Inv E f"
  "Inv E (SetTemplateFunc f name fn) = Inv E f"
  by (simp_all add: Inv_def AddPreprocessor_def ClearPreprocessors_def SetTemplateFunc_def)

lemma exec_Inv: "exec E x f = Some g \<Longrightarrow> Inv E f \<Longrightarrow> Inv E g"
proof (cases "calls_Get x")
  case True
  then show "exec E x f = Some g \<Longrightarrow> Inv E f \<Longrightarrow> Inv E g"
    using exec_evolve [of x E f g] by (simp add: evolve_def)
next
  case False
  then show "exec E x f = Some g \<Longrightarrow> Inv E f \<Longrightarrow> Inv E g"
    by (cases x) (auto simp: calls_Get_def Inv_AddFile Inv_AddDirectory Inv_other_fields)
qed

lemma run_Inv: "run E xs f = Some g \<Longrightarrow> Inv E f \<Longrightarrow> Inv E g"
proof (induction xs arbitrary: f)
  case Nil
  then show ?case by simp
next
  case (Cons x xs)
  then obtain h where h: "exec E x f = Some h" "run E xs h = Some g"
    by (auto split: option.splits)
  show ?case using Cons.IH [OF h(2)] exec_Inv [OF h(1) Cons.prems(2)] by simp
qed

lemma httpError_fields:
  "body (httpError w code m) = body w @ m @ [CHR 0x0A]"
  "header (httpError w code m) ''Content-Type'' = Some ''text/plain; charset=utf-8''"
  "status w = None \<Longrightarrow> status (httpError w code m) = Some code"
  by (simp_all add: httpError_def Write_def WriteHeader_def Header_Set_def Let_def)

subsection \<open>Serve\<close>

text \<open>
  C1, as stated, at a request that does not start with the base URL. \<open>Serve\<close> compares
  the length of the request URL with the length of \<open>baseURL\<close> and never the bytes: after
  \<open>/logo.png\<close> has been got in a registry with base URL \<open>/a/\<close>, the request \<open>XYZ03e5\<close>
  is answered with the content of the file and status 200, not with 404.
\<close>

theorem Serve_prefix_counterexample:
  "\<not> HasPrefix ''XYZ03e5''
       (baseURL (the (run demo_env [OpAddFile ''www/logo.png'' ''/logo.png'', OpGet 1 ''/logo.png'']
          (NewAssets ''/a/'')))) \<and>
   status (Serve demo_env
       (the (run demo_env [OpAddFile ''www/logo.png'' ''/logo.png'', OpGet 1 ''/logo.png'']
          (NewAssets ''/a/''))) ''XYZ03e5'' demo_response None) = Some 200 \<and>
   body (Serve demo_env
       (the (run demo_env [OpAddFile ''www/logo.png'' ''/logo.png'', OpGet 1 ''/logo.png'']
          (NewAssets ''/a/''))) ''XYZ03e5'' demo_response None) = ''PNG''"
  by code_simp

text \<open>
  C1, amended. When the request URL is shorter than \<open>baseURL\<close>, or what follows its first
  \<open>len(baseURL)\<close> bytes is not a key of \<open>byChecksum\<close>, \<open>Serve\<close> answers with status 404,
  content type \<open>text/plain; charset=utf-8\<close> and the body \<open>404 - File not found\<close> followed by
  a line feed. \<open>byChecksum\<close> is empty in a new registry, and an operation gives it a new key
  only if it goes through \<open>Get\<close>.
\<close>

theorem Serve_not_found:
  "((length url < length (baseURL f) \<or> byChecksum f (drop (length (baseURL f)) url) = None) \<longrightarrow>
      Serve E f url w r = httpError w 404 ''404 - File not found'' \<and>
      body (Serve E f url w r) = body w @ ''404 - File not found'' @ [CHR 0x0A] \<and>
      header (Serve E f url w r) ''Content-Type'' = Some ''text/plain; charset=utf-8'' \<and>
      (status w = None \<longrightarrow> status (Serve E f url w r) = Some 404)) \<and>
   byChecksum (NewAssets b) = Map.empty \<and>
   (exec E x f' = Some g \<longrightarrow> byChecksum f' k = None \<longrightarrow> byChecksum g k \<noteq> None \<longrightarrow> calls_Get x)"
proof -
  have "Serve E f url w r = httpError w 404 ''404 - File not found''"
    if "length url < length (baseURL f) \<or> byChecksum f (drop (length (baseURL f)) url) = None"
    using that by (auto simp: Serve_def Let_def)
  moreover have "byChecksum (NewAssets b) = Map.empty"
    by (simp add: NewAssets_def AddPreprocessor_def)
  moreover have "calls_Get x"
    if "exec E x f' = Some g" "byChecksum f' k = None" "byChecksum g k \<noteq> None"
  proof (rule ccontr)
    assume "\<not> calls_Get x"
    then have "byChecksum g = byChecksum f'"
      using that(1) by (rule exec_byChecksum)
    with that(2,3) show False by simp
  qed
  ultimately show ?thesis
    by (simp add: httpError_fields)
qed

theorem Serve_not_found_witness:
  "(length ''/a/deadbeef'' < length (baseURL (NewAssets ''/a/'')) \<or>
      byChecksum (NewAssets ''/a/'') (drop (length (baseURL (NewAssets ''/a/''))) ''/a/deadbeef'')
        = None) \<and>
   body (Serve demo_env (NewAssets ''/a/'') ''/a/deadbeef'' demo_response None)
     = ''404 - File not found'' @ [CHR 0x0A] \<and>
   status (Serve demo_env (NewAssets ''/a/'') ''/a/deadbeef'' demo_response None) = Some 404 \<and>
   exec demo_env (OpGet 1 ''/logo.png'') (AddFile (NewAssets ''/a/'') ''www/logo.png'' ''/logo.png'')
     \<noteq> None \<and>
   byChecksum (AddFile (NewAssets ''/a/'') ''www/logo.png'' ''/logo.png'') ''03e5'' = None \<and>
   byChecksum (the (exec demo_env (OpGet 1 ''/logo.png'')
       (AddFile (NewAssets ''/a/'') ''www/logo.png'' ''/logo.png''))) ''03e5'' \<noteq> None \<and>
   calls_Get (OpGet 1 ''/logo.png'')"
proof -
  let ?f = "AddFile (NewAssets ''/a/'') ''www/logo.png'' ''/logo.png''"
  let ?x = "exec demo_env (OpGet 1 ''/logo.png'') ?f"
  have h: "length ''/a/deadbeef'' < length (baseURL (NewAssets ''/a/'')) \<or>
      byChecksum (NewAssets ''/a/'') (drop (length (baseURL (NewAssets ''/a/''))) ''/a/deadbeef'')
        = None"
    by (simp add: NewAssets_def AddPreprocessor_def)
  have s: "status demo_response = None" "body demo_response = []"
    by (simp_all add: demo_response_def)
  have x: "?x \<noteq> None" by code_simp
  then have x': "?x = Some (the ?x)" by simp
  have b0: "byChecksum ?f ''03e5'' = None" by code_simp
  have b1: "byChecksum (the ?x) ''03e5'' \<noteq> None" by code_simp
  note T = Serve_not_found [where E = demo_env and f = "NewAssets ''/a/''"
      and url = "''/a/deadbeef''" and w = demo_response and r = None
      and x = "OpGet 1 ''/logo.png''" and f' = ?f and g = "the ?x" and k = "''03e5''"
      and b = "''/a/''"]
  from T h have
    "body (Serve demo_env (NewAssets ''/a/'') ''/a/deadbeef'' demo_response None)
       = body demo_response @ ''404 - File not found'' @ [CHR 0x0A]"
    "status demo_response = None \<longrightarrow>
     status (Serve demo_env (NewAssets ''/a/'') ''/a/deadbeef'' demo_response None) = Some 404"
    by blast+
  moreover from T x' b0 b1 have "calls_Get (OpGet 1 ''/logo.png'')"
    by blast
  ultimately show ?thesis
    using h s x b0 b1 by simp
qed

text \<open>
  C8. In a registry reached from \<open>NewAssets\<close> by any sequence of operations, when \<open>Serve\<close>
  finds the file: if the \<open>Accept-Encoding\<close> header of the request contains \<open>gzip\<close>, the
  response has \<open>Content-Encoding: gzip\<close> and its body is the stored compressed content,
  which any inverse \<open>gunzip\<close> of the compressor turns back into the content of the file;
  otherwise (no request, no such header, or a header without \<open>gzip\<close>) the body is the
  content itself and \<open>Serve\<close> leaves the \<open>Content-Encoding\<close> header as it found it.
\<close>

theorem Serve_gzip:
  assumes "run E xs (NewAssets b) = Some f"
    and "length (baseURL f) \<le> length url"
    and "byChecksum f (drop (length (baseURL f)) url) = Some file"
    and "\<forall>c. gunzip (gzip E c) = c"
  shows "(accepts_gzip r \<longrightarrow>
           header (Serve E f url w r) ''Content-Encoding'' = Some ''gzip'' \<and>
           body (Serve E f url w r) = body w @ bytes_of (ContentGZipped (store f file)) \<and>
           gunzip (bytes_of (ContentGZipped (store f file))) = bytes_of (Content (store f file))) \<and>
         (\<not> accepts_gzip r \<longrightarrow>
           header (Serve E f url w r) ''Content-Encoding'' = header w ''Content-Encoding'' \<and>
           body (Serve E f url w r) = body w @ bytes_of (Content (store f file)))"
proof -
  have "Inv E f"
    using run_Inv [OF assms(1) Inv_NewAssets] .
  then have "consistent E (store f file)"
    using assms(3) by (auto simp: Inv_def)
  then have "gunzip (bytes_of (ContentGZipped (store f file))) = bytes_of (Content (store f file))"
    using assms(4) by (simp add: consistent_def bytes_of_def)
  then show ?thesis
    using assms(2,3)
    by (simp add: Serve_def Let_def Write_def WriteHeader_def Header_Set_def)
qed

theorem Serve_gzip_witness:
  "run demo_env [OpAddFile ''www/logo.png'' ''/logo.png'', OpGet 1 ''/logo.png''] (NewAssets ''/a/'')
     \<noteq> None \<and>
   byChecksum (the (run demo_env [OpAddFile ''www/logo.png'' ''/logo.png'', OpGet 1 ''/logo.png'']
     (NewAssets ''/a/''))) ''03e5'' = Some 0 \<and>
   accepts_gzip (Some \<lparr>Header = (\<lambda>k. if k = ''Accept-Encoding'' then [''gzip, deflate''] else [])\<rparr>) \<and>
   header (Serve demo_env
      (the (run demo_env [OpAddFile ''www/logo.png'' ''/logo.png'', OpGet 1 ''/logo.png'']
         (NewAssets ''/a/''))) ''/a/03e5'' demo_response
      (Some \<lparr>Header = (\<lambda>k. if k = ''Accept-Encoding'' then [''gzip, deflate''] else [])\<rparr>))
      ''Content-Encoding'' = Some ''gzip'' \<and>
   body (Serve demo_env
      (the (run demo_env [OpAddFile ''www/logo.png'' ''/logo.png'', OpGet 1 ''/logo.png'']
         (NewAssets ''/a/''))) ''/a/03e5'' demo_response
      (Some \<lparr>Header = (\<lambda>k. if k = ''Accept-Encoding'' then [''gzip, deflate''] else [])\<rparr>))
      = ''GZPNG'' \<and>
   drop 2 ''GZPNG'' = ''PNG'' \<and>
   \<not> accepts_gzip None \<and>
   header (Serve demo_env
      (the (run demo_env [OpAddFile ''www/logo.png'' ''/logo.png'', OpGet 1 ''/logo.png'']
         (NewAssets ''/a/''))) ''/a/03e5'' demo_response None) ''Content-Encoding'' = None \<and>
   body (Serve demo_env
      (the (run demo_env [OpAddFile ''www/logo.png'' ''/logo.png'', OpGet 1 ''/logo.png'']
         (NewAssets ''/a/''))) ''/a/03e5'' demo_response None) = ''PNG''"
proof -
  let ?xs = "[OpAddFile ''www/logo.png'' ''/logo.png'', OpGet 1 ''/logo.png'']"
  let ?f = "the (run demo_env ?xs (NewAssets ''/a/''))"
  let ?r = "Some \<lparr>Header = (\<lambda>k. if k = ''Accept-Encoding'' then [''gzip, deflate''] else [])\<rparr>"
  have ne: "run demo_env ?xs (NewAssets ''/a/'') \<noteq> None" by code_simp
  then have 1: "run demo_env ?xs (NewAssets ''/a/'') = Some ?f" by simp
  have 2: "length (baseURL ?f) \<le> length ''/a/03e5''" by code_simp
  have 3: "byChecksum ?f (drop (length (baseURL ?f)) ''/a/03e5'') = Some 0" by code_simp
  have k3: "byChecksum ?f ''03e5'' = Some 0" by code_simp
  have 4: "\<forall>c. drop 2 (gzip demo_env c) = c" by (simp add: demo_env_def)
  have 5: "accepts_gzip ?r" by (simp add: accepts_gzip_def Header_Get_def)
  have 6: "\<not> accepts_gzip None" by (simp add: accepts_gzip_def)
  have 7: "bytes_of (ContentGZipped (store ?f 0)) = ''GZPNG''" by code_simp
  have k7: "bytes_of (Content (store ?f 0)) = ''PNG''" by code_simp
  have 8: "header demo_response ''Content-Encoding'' = None" "body demo_response = []"
    by (simp_all add: demo_response_def)
  show ?thesis
    using Serve_gzip [OF 1 2 3 4, of ?r demo_response] Serve_gzip [OF 1 2 3 4, of None demo_response]
      ne k3 5 6 7 k7 8
    by simp
qed

subsection \<open>Materialized entries\<close>




lemma Get_materialized:
  "entries f vp = Some a \<Longrightarrow> Content (store f a) \<noteq> None \<Longrightarrow>
   Get E (Suc n) f vp = Some (Inr a, f)"
  by (simp add: Get_body_def)

lemma Get_result_entry: "Get E n f vp = Some (Inr a, g) \<Longrightarrow> entries f vp = Some a"
  by (cases n)
    (auto simp: Get_body_def Let_def split: option.splits sum.splits prod.splits if_splits)

lemma Get_twice:
  assumes "Get E n f vp = Some (Inr a, g)" and "Content (store g a) \<noteq> None"
  shows "Get E' (Suc m) g vp = Some (Inr a, g)"
proof -
  have "entries g vp = Some a"
    using Get_result_entry [OF assms(1)] Get_evolve [OF assms(1)] by (simp add: evolve_def)
  then show ?thesis using assms(2) by (rule Get_materialized)
qed

lemma Get_fingerprint:
  assumes "Inv E f" and "Get E n f vp = Some (Inr a, g)"
  shows "HashString (store g a) = EncodeToString (sha1 E (bytes_of (Content (store g a))))"
proof -
  have "Inv E g"
    using Get_evolve [OF assms(2)] assms(1) by (simp add: evolve_def)
  moreover have "\<not> fresh (store g a)"
    using assms(2)
    by (cases n)
      (auto simp: Get_body_def Let_def fresh_def
        split: option.splits sum.splits prod.splits if_splits)
  ultimately show ?thesis by (auto simp: Inv_def consistent_def)
qed


text \<open>
  The rewriters of the package do the same to an empty style sheet: \<open>ReplaceAllFunc\<close>
  returns the \<open>nil\<close> slice for an empty result.
\<close>

lemma empty_stylesheet_nil_content:
  "byChecksum (the (run demo_env
      [OpAddFile ''www/empty.css'' ''/empty.css'', OpGet 1 ''/empty.css''] (NewAssets ''/a/'')))
      ''0000'' = Some 0 \<and>
   Content (store (the (run demo_env
      [OpAddFile ''www/empty.css'' ''/empty.css'', OpGet 1 ''/empty.css''] (NewAssets ''/a/''))) 0)
      = None"
  by code_simp

lemma failed_Get_sets_ContentType:
  "fst (the (Get demo_env 2 (AddFile (NewAssets ''/a/'') ''www/site.css'' ''/css/site.css'')
      ''/css/site.css'')) = Inl (Error ''File Not Found: /css/logo.png'') \<and>
   ContentType (store (snd (the (Get demo_env 2
      (AddFile (NewAssets ''/a/'') ''www/site.css'' ''/css/site.css'') ''/css/site.css''))) 0)
      = ''text/css; charset=utf-8'' \<and>
   Content (store (snd (the (Get demo_env 2
      (AddFile (NewAssets ''/a/'') ''www/site.css'' ''/css/site.css'') ''/css/site.css''))) 0)
      = None"
  by code_simp



subsection \<open>Get twice\<close>

text \<open>
  C4, at an empty style sheet. The specification has a second \<open>Get\<close> return the same entry,
  fingerprint and content without recomputation. The first \<open>Get\<close> of the empty
  \<open>/empty.css\<close> leaves \<open>Content\<close> \<open>nil\<close> (fingerprint \<open>0000\<close>, the hash of the empty
  content), so the test \<open>file.Content == nil\<close> of the second \<open>Get\<close> holds again and the
  file is read and processed again: once the file on disk has changed to \<open>x{}\<close>, the
  second \<open>Get\<close> returns the same entry with another fingerprint and other content.
\<close>

theorem Get_empty_stylesheet_recomputes:
  "fst (the (Get demo_env 1 (AddFile (NewAssets ''/a/'') ''www/empty.css'' ''/empty.css'')
      ''/empty.css'')) = Inr 0 \<and>
   HashString (store (snd (the (Get demo_env 1
      (AddFile (NewAssets ''/a/'') ''www/empty.css'' ''/empty.css'') ''/empty.css''))) 0) = ''0000'' \<and>
   Content (store (snd (the (Get demo_env 1
      (AddFile (NewAssets ''/a/'') ''www/empty.css'' ''/empty.css'') ''/empty.css''))) 0) = None \<and>
   fst (the (Get (demo_env\<lparr>ReadFile := (\<lambda>p. Inr ''x{}'')\<rparr>) 1
      (snd (the (Get demo_env 1
         (AddFile (NewAssets ''/a/'') ''www/empty.css'' ''/empty.css'') ''/empty.css'')))
      ''/empty.css'')) = Inr 0 \<and>
   HashString (store (snd (the (Get (demo_env\<lparr>ReadFile := (\<lambda>p. Inr ''x{}'')\<rparr>) 1
      (snd (the (Get demo_env 1
         (AddFile (NewAssets ''/a/'') ''www/empty.css'' ''/empty.css'') ''/empty.css'')))
      ''/empty.css''))) 0) = ''0370'' \<and>
   Content (store (snd (the (Get (demo_env\<lparr>ReadFile := (\<lambda>p. Inr ''x{}'')\<rparr>) 1
      (snd (the (Get demo_env 1
         (AddFile (NewAssets ''/a/'') ''www/empty.css'' ''/empty.css'') ''/empty.css'')))
      ''/empty.css''))) 0) = Some ''x{}''"
  by code_simp

subsection \<open>References in style sheets\<close>

lemma getRooted_rule:
  "getRooted fromFile [] = Inl (Panic ''index out of range'')"
  "getRooted fromFile (CHR ''/'' # t) = Inr (CHR ''/'' # t)"
  "c \<noteq> CHR ''/'' \<Longrightarrow>
     getRooted fromFile (c # t) = Inr (filepath_Join [filepath_Dir fromFile, c # t])"
  by (simp_all add: getRooted_def)

lemma replace_match_rewrites:
  assumes "getRooted path' (TrimSpace ref) = Inr rootedPath"
    and "geturl f rootedPath = Some (Inr url, g)"
  shows "replace_match geturl path' prefix postfix f (prefix @ ref @ postfix)
           = Some (Inr (prefix @ url @ postfix, None), g)"
  using assms by (simp add: replace_match_def)

text \<open>
  The style sheet \<open>a{background:url(./logo.png)}\<close>, read from \<open>www/site.css\<close> and
  registered as \<open>/css/site.css\<close>, with an image registered as \<open>/css/logo.png\<close>: the
  reference is resolved against the directory of the virtual path, and the content of
  the style sheet becomes the reference to the base URL and the fingerprint of the image.
\<close>

lemma stylesheet_round_trip:
  "bytes_of (Content (store (the (run demo_env
     [OpAddFile ''www/site.css'' ''/css/site.css'', OpAddFile ''www/logo.png'' ''/css/logo.png'',
      OpGet 2 ''/css/site.css''] (NewAssets ''/a/''))) 0)) = ''a{background:url(/a/03e5)}'' \<and>
   \<not> Contains ''a{background:url(/a/03e5)}'' ''./logo.png''"
  by code_simp

text \<open>
  C7, at a reference of white space only. The specification has every reference that does not
  start with the separator joined to the directory of the current virtual path. In
  \<open>b{background:url( )}\<close> the pattern matches \<open>url( )\<close>, the reference is one space,
  \<open>TrimSpace\<close> makes it empty, and \<open>getRooted\<close> reads \<open>targetFile[0]\<close>: \<open>Get\<close> panics.
\<close>

theorem blank_reference_panics:
  "find_all cssUrlRegex ''b{background:url( )}'' =
     map Lit ''b{background:'' @ [Match ''url( )'', Lit (CHR ''}'')] \<and>
   TrimSpace '' '' = [] \<and>
   fst (the (Get demo_env 1 (AddFile (NewAssets ''/a/'') ''www/blank.css'' ''/blank.css'')
     ''/blank.css'')) = Inl (Panic ''index out of range'')"
  by code_simp

end
